theory Spec2Isabelle
  imports Main "HOL-Library.Word"
begin

section \<open>The ROVIOLI application controller (rovioli-app.cc)\<close>

text \<open>
  A shallow embedding of \<^verbatim>\<open>applications/rovioli/app/rovioli-app.cc\<close>: the gflags the file
  defines and declares, the \<^verbatim>\<open>RovioliApp\<close> class with its constructor, \<^verbatim>\<open>init\<close>,
  \<^verbatim>\<open>run\<close>, \<^verbatim>\<open>shouldExit\<close>, \<^verbatim>\<open>saveMapCallback\<close>, \<^verbatim>\<open>saveMap\<close> and \<^verbatim>\<open>shutdown\<close>,
  and \<^verbatim>\<open>main\<close>.

  Everything the file calls but does not define (the filesystem tests of maplab-common,
  the map and calibration loaders, the ROVIOLI node, the message flow, ROS) is outside the
  file. Calls that return a value the file branches on are answered by an environment
  record; calls made for their effect are recorded, in program order, in a trace.
\<close>

subsection \<open>Global flags\<close>

text \<open>The gflags defined (lines 20-43) and declared (lines 45-49) by the file.
  They are process-wide mutable variables.\<close>

record flags =
  FLAGS_vio_localization_map_folder :: string
  FLAGS_ncamera_calibration :: string
  FLAGS_imu_parameters_maplab :: string
  FLAGS_external_imu_parameters_rovio :: string
  FLAGS_save_map_folder :: string
  FLAGS_overwrite_existing_map :: bool
  FLAGS_optimize_map_to_localization_map :: bool
  FLAGS_save_map_on_shutdown :: bool
  FLAGS_map_builder_save_image_as_resources :: bool
  FLAGS_datasource_type :: string
  FLAGS_datasource_rosbag :: string
  FLAGS_publish_debug_markers :: bool
  FLAGS_rovio_enable_frame_visualization :: bool

text \<open>The private ROS parameters the constructor reads; \<open>None\<close> is a parameter that is
  not set on the parameter server.\<close>

record ros_params =
  param_vio_localization_map_folder :: "string option"
  param_ncamera_calibration :: "string option"
  param_imu_parameters_maplab :: "string option"
  param_save_map_folder :: "string option"
  param_overwrite_existing_map :: "bool option"
  param_optimize_map_to_localization_map :: "bool option"
  param_save_map_on_shutdown :: "bool option"
  param_publish_debug_markers :: "bool option"
  param_frame_visualization :: "bool option"
  param_bagfile :: "string option"

subsection \<open>The environment\<close>

text \<open>
  What the collaborators answer. \<open>fileExists\<close> and \<open>pathExists\<close> are the two tests of
  maplab-common that \<^verbatim>\<open>init\<close> calls on a candidate save folder. \<open>persist_succeeds\<close> says
  whether the node's \<^verbatim>\<open>saveMapAndOptionallyOptimize\<close>, called with these arguments, gets
  the map written. \<open>ros_ok\<close> and \<open>data_source_exhausted\<close> are what the \<open>k\<close>-th evaluation
  of the condition of the wait loop of \<^verbatim>\<open>main\<close> reads.
\<close>

record env =
  fileExists :: "string \<Rightarrow> bool"
  pathExists :: "string \<Rightarrow> bool"
  summary_map_loadFromFolder :: "string \<Rightarrow> bool"
  vi_map_loadMapFromFolder :: "string \<Rightarrow> bool"
  summary_map_landmark_cols :: "string \<Rightarrow> int"
  ncamera_loadFromYaml :: "string \<Rightarrow> bool"
  imu_createFromYaml :: "string \<Rightarrow> bool option"
  imu_sigmas_loadFromYaml :: "string \<Rightarrow> bool option"
  getNumHardwareThreads :: nat
  persist_succeeds :: "string \<Rightarrow> bool \<Rightarrow> bool \<Rightarrow> bool"
  ros_ok :: "nat \<Rightarrow> bool"
  data_source_exhausted :: "nat \<Rightarrow> bool"

subsection \<open>State, trace and outcomes\<close>

datatype event =
    RosInfo
  | LogWarning
  | LogError
  | RosFatal
  | RosShutdown
  | AdvertiseService
  | SummaryMapLoadFromFolder string
  | LoadMapFromFolder string
  | CreateLocalizationSummaryMap string
  | NCameraLoadFromYaml string
  | ImuCreateFromYaml string
  | ImuSigmasLoadFromYaml string
  | MessageFlowCreate nat
  | RovioliNodeConstruct string bool
  | SpinnerStart
  | RovioliNodeStart
  | RovioliNodeSaveMap string bool bool bool
  | RovioliNodeShutdown
  | MessageFlowShutdown
  | MessageFlowWaitUntilIdle

text \<open>The members of \<^verbatim>\<open>RovioliApp\<close> (lines 84-91). A \<^verbatim>\<open>unique_ptr\<close> member is modelled
  by whether it is non-null. A member \<^verbatim>\<open>x_\<close> of the class is the field \<open>this_x\<close> (a name
  that ends in an underscore is reserved).\<close>

record app =
  this_initialized :: bool
  this_save_map_folder :: string
  this_message_flow :: bool
  this_localization_map :: bool
  this_rovio_localization_node :: bool

record world =
  flags :: flags
  app :: app
  trace :: "event list"

text \<open>A call either returns, or the process dies in it: a failed glog \<^verbatim>\<open>CHECK\<close> aborts,
  and so (here) does a call through a null pointer.\<close>

datatype fatal = CheckFailed | NullDereference

datatype 'a outcome = Returned 'a world | Fatal fatal world

definition emit :: "event \<Rightarrow> world \<Rightarrow> world" where
  "emit ev w = w\<lparr>trace := trace w @ [ev]\<rparr>"

fun bind :: "'a outcome \<Rightarrow> ('a \<Rightarrow> world \<Rightarrow> 'b outcome) \<Rightarrow> 'b outcome" where
  "bind (Returned a w) f = f a w"
| "bind (Fatal r w) f = Fatal r w"

definition CHECK :: "bool \<Rightarrow> world \<Rightarrow> unit outcome" where
  "CHECK c w = (if c then Returned () w else Fatal CheckFailed w)"

subsection \<open>The constructor (lines 94-141)\<close>

definition param :: "'a option \<Rightarrow> 'a \<Rightarrow> 'a" where
  "param p d = (case p of Some v \<Rightarrow> v | None \<Rightarrow> d)"

definition override_flags :: "ros_params \<Rightarrow> flags \<Rightarrow> flags" where
  "override_flags ps f = f\<lparr>
     FLAGS_vio_localization_map_folder :=
       param (param_vio_localization_map_folder ps) (FLAGS_vio_localization_map_folder f),
     FLAGS_ncamera_calibration :=
       param (param_ncamera_calibration ps) (FLAGS_ncamera_calibration f),
     FLAGS_imu_parameters_maplab :=
       param (param_imu_parameters_maplab ps) (FLAGS_imu_parameters_maplab f),
     FLAGS_save_map_folder := param (param_save_map_folder ps) (FLAGS_save_map_folder f),
     FLAGS_overwrite_existing_map :=
       param (param_overwrite_existing_map ps) (FLAGS_overwrite_existing_map f),
     FLAGS_optimize_map_to_localization_map :=
       param (param_optimize_map_to_localization_map ps)
         (FLAGS_optimize_map_to_localization_map f),
     FLAGS_save_map_on_shutdown :=
       param (param_save_map_on_shutdown ps) (FLAGS_save_map_on_shutdown f),
     FLAGS_publish_debug_markers :=
       param (param_publish_debug_markers ps) (FLAGS_publish_debug_markers f),
     FLAGS_rovio_enable_frame_visualization :=
       param (param_frame_visualization ps) (FLAGS_rovio_enable_frame_visualization f)\<rparr>"

text \<open>How data is loaded (lines 124-136); the second component says whether a line
  was logged.\<close>

definition select_datasource :: "ros_params \<Rightarrow> flags \<Rightarrow> flags \<times> bool" where
  "select_datasource ps f =
     (let bagfile = param (param_bagfile ps) [] in
      if bagfile \<noteq> [] \<and> FLAGS_datasource_type f \<noteq> ''rostopic'' then
        (f\<lparr>FLAGS_datasource_type := ''rosbag'', FLAGS_datasource_rosbag := bagfile\<rparr>, True)
      else if FLAGS_datasource_type f = ''rosbag'' \<and> FLAGS_datasource_rosbag f = [] then
        (f\<lparr>FLAGS_datasource_type := ''rostopic''\<rparr>, True)
      else (f, False))"

definition RovioliApp :: "ros_params \<Rightarrow> flags \<Rightarrow> world" where
  "RovioliApp ps f0 =
     (let (f, logged) = select_datasource ps (override_flags ps f0);
          w = \<lparr>flags = f,
               app = \<lparr>this_initialized = False, this_save_map_folder = [],
                      this_message_flow = False, this_localization_map = False,
                      this_rovio_localization_node = False\<rparr>,
               trace = []\<rparr>
      in emit AdvertiseService (if logged then emit RosInfo w else w))"

subsection \<open>Allocating the save folder (lines 197-208 of init)\<close>

text \<open>\<^verbatim>\<open>std::to_string\<close> on a \<^verbatim>\<open>size_t\<close>: the decimal digits, most significant first.\<close>

definition digit_char :: "nat \<Rightarrow> char" where
  "digit_char d = ''0123456789'' ! (d mod 10)"

fun to_string :: "nat \<Rightarrow> string" where
  "to_string n =
     (if n < 10 then [digit_char n] else to_string (n div 10) @ [digit_char (n mod 10)])"

declare to_string.simps [simp del]

text \<open>The condition of the loop at lines 202-204.\<close>

definition taken :: "env \<Rightarrow> bool \<Rightarrow> string \<Rightarrow> bool" where
  "taken e overwrite p = (fileExists e p \<or> (\<not> overwrite \<and> pathExists e p))"

text \<open>The right-hand side of the assignment at lines 205-206, for the counter value \<open>n\<close>.\<close>

definition suffixed :: "string \<Rightarrow> nat \<Rightarrow> string" where
  "suffixed base n = base @ ''_'' @ to_string n"

text \<open>The loop at lines 202-207. \<open>counter\<close> is a \<^verbatim>\<open>size_t\<close> (64 bits); \<open>counter++\<close> wraps.
  The loop has no bound, so it is a partial function: \<open>None\<close> is a loop that never
  ends.\<close>

partial_function (option) allocate_loop ::
    "env \<Rightarrow> bool \<Rightarrow> string \<Rightarrow> string \<Rightarrow> 64 word \<Rightarrow> string option" where
  "allocate_loop e overwrite base cur counter =
     (if taken e overwrite cur
      then allocate_loop e overwrite base (suffixed base (unat counter)) (counter + 1)
      else Some cur)"

declare allocate_loop.simps [code]

text \<open>Lines 199-208: the value of \<^verbatim>\<open>save_map_folder_\<close> after them, for the flag values
  \<open>overwrite\<close> and \<open>base\<close>.\<close>

definition allocate_save_folder :: "env \<Rightarrow> bool \<Rightarrow> string \<Rightarrow> string option" where
  "allocate_save_folder e overwrite base =
     (if base \<noteq> [] then allocate_loop e overwrite base base 0 else Some base)"

subsection \<open>init (lines 143-221)\<close>

text \<open>Lines 144-163: optionally load the localization map. A summary map that does not
  load is logged as a warning and the folder is loaded as a full VI map, under a
  \<^verbatim>\<open>CHECK\<close>; the summary derived from it must have at least one landmark column.\<close>

definition set_localization_map :: "bool \<Rightarrow> world \<Rightarrow> world" where
  "set_localization_map b w = w\<lparr>app := (app w)\<lparr>this_localization_map := b\<rparr>\<rparr>"

definition init_load_localization_map :: "env \<Rightarrow> world \<Rightarrow> unit outcome" where
  "init_load_localization_map e w =
     (let folder = FLAGS_vio_localization_map_folder (flags w) in
      if folder \<noteq> [] then
        (let w1 = emit (SummaryMapLoadFromFolder folder) (set_localization_map True w) in
         if \<not> summary_map_loadFromFolder e folder then
           (let w2 = emit (LoadMapFromFolder folder) (emit LogWarning w1) in
            bind (CHECK (vi_map_loadMapFromFolder e folder) w2) (\<lambda>_ w3.
              (let w4 = emit (CreateLocalizationSummaryMap folder)
                          (set_localization_map True w3)
               in CHECK (0 < summary_map_landmark_cols e folder) w4)))
         else Returned () w1)
      else Returned () w)"

text \<open>Lines 165-188: camera calibration and IMU parameters, each under a \<^verbatim>\<open>CHECK\<close>.
  \<open>imu_createFromYaml\<close> answers \<open>None\<close> for a null sensor and \<open>Some v\<close> for a sensor whose
  sigmas have \<^verbatim>\<open>isValid() = v\<close>; \<open>imu_sigmas_loadFromYaml\<close> answers \<open>None\<close> when the
  load returns false and \<open>Some v\<close> for loaded sigmas with \<^verbatim>\<open>isValid() = v\<close>.\<close>

definition init_load_sensors :: "env \<Rightarrow> world \<Rightarrow> unit outcome" where
  "init_load_sensors e w =
     (let calib = FLAGS_ncamera_calibration (flags w);
          w1 = emit (NCameraLoadFromYaml calib) w
      in bind (CHECK (ncamera_loadFromYaml e calib) w1) (\<lambda>_ w2.
         (let imu = FLAGS_imu_parameters_maplab (flags w2);
              w3 = emit (ImuCreateFromYaml imu) w2
          in bind (CHECK (imu_createFromYaml e imu \<noteq> None) w3) (\<lambda>_ w4.
             bind (CHECK (imu_createFromYaml e imu = Some True) w4) (\<lambda>_ w5.
               (let ext = FLAGS_external_imu_parameters_rovio (flags w5) in
                if ext \<noteq> [] then
                  (let w6 = emit (ImuSigmasLoadFromYaml ext) w5 in
                   bind (CHECK (imu_sigmas_loadFromYaml e ext \<noteq> None) w6) (\<lambda>_ w7.
                     CHECK (imu_sigmas_loadFromYaml e ext = Some True) w7))
                else Returned () w5))))))"

text \<open>Lines 210-219: construct the message flow and the node, set \<^verbatim>\<open>initialized_\<close>.\<close>

definition init_construct :: "env \<Rightarrow> world \<Rightarrow> world" where
  "init_construct e w =
     (let w1 = (emit (MessageFlowCreate (getNumHardwareThreads e)) w)
                 \<lparr>app := (app w)\<lparr>this_message_flow := True\<rparr>\<rparr>;
          w2 = (emit (RovioliNodeConstruct (this_save_map_folder (app w1))
                        (this_localization_map (app w1))) w1)
                 \<lparr>app := (app w1)\<lparr>this_rovio_localization_node := True\<rparr>\<rparr>
      in w2\<lparr>app := (app w2)\<lparr>this_initialized := True\<rparr>\<rparr>)"

text \<open>\<open>init\<close> as a whole. \<open>None\<close>: the loop at lines 202-207 never ends.\<close>

definition init :: "env \<Rightarrow> world \<Rightarrow> bool outcome option" where
  "init e w =
     (case bind (init_load_localization_map e w) (\<lambda>_. init_load_sensors e) of
        Fatal r w' \<Rightarrow> Some (Fatal r w')
      | Returned _ w1 \<Rightarrow>
          if FLAGS_map_builder_save_image_as_resources (flags w1) \<and>
             FLAGS_save_map_folder (flags w1) = []
          then Some (Returned False (emit LogError w1))
          else
            (case allocate_save_folder e (FLAGS_overwrite_existing_map (flags w1))
                    (FLAGS_save_map_folder (flags w1)) of
               None \<Rightarrow> None
             | Some folder \<Rightarrow>
                 Some (Returned True
                   (init_construct e (w1\<lparr>app := (app w1)\<lparr>this_save_map_folder := folder\<rparr>\<rparr>)))))"

subsection \<open>run, shouldExit, saveMap, saveMapCallback, shutdown (lines 223-261)\<close>

definition run :: "world \<Rightarrow> bool outcome" where
  "run w =
     (if \<not> this_initialized (app w) then Returned False w
      else
        (let w1 = emit SpinnerStart w in
         if \<not> this_rovio_localization_node (app w1) then Fatal NullDereference w1
         else Returned True (emit RovioliNodeStart w1)))"

definition shouldExit :: "world \<Rightarrow> unit outcome" where
  "shouldExit w = CHECK (this_rovio_localization_node (app w)) w"

text \<open>The value the node's save call returns, if any, is not used (lines 248-251).
  The trace records with the call whether the environment let it succeed.\<close>

definition saveMap :: "env \<Rightarrow> world \<Rightarrow> bool outcome" where
  "saveMap e w =
     (if this_save_map_folder (app w) \<noteq> [] then
        (if \<not> this_rovio_localization_node (app w) then Fatal NullDereference w
         else
           (let folder = this_save_map_folder (app w);
                overwrite = FLAGS_overwrite_existing_map (flags w);
                optimize = FLAGS_optimize_map_to_localization_map (flags w)
            in Returned True
                 (emit (RovioliNodeSaveMap folder overwrite optimize
                          (persist_succeeds e folder overwrite optimize)) w)))
      else Returned False w)"

text \<open>The service callback; request and response are \<^verbatim>\<open>std_srvs::Empty\<close>.\<close>

definition saveMapCallback :: "env \<Rightarrow> unit \<Rightarrow> unit \<Rightarrow> world \<Rightarrow> bool outcome" where
  "saveMapCallback e request response w = saveMap e w"

definition shutdown :: "world \<Rightarrow> unit outcome" where
  "shutdown w =
     (if \<not> this_rovio_localization_node (app w) then Fatal NullDereference w
      else
        (let w1 = emit RovioliNodeShutdown w in
         if \<not> this_message_flow (app w1) then Fatal NullDereference w1
         else Returned () (emit MessageFlowWaitUntilIdle (emit MessageFlowShutdown w1))))"

subsection \<open>main (lines 265-298)\<close>

text \<open>The wait loop at lines 288-291; \<open>k\<close> counts the evaluations of its condition. The
  result is the number of the evaluation that ended it; \<open>None\<close> is a loop that never
  ends.\<close>

partial_function (option) wait_loop :: "env \<Rightarrow> nat \<Rightarrow> nat option" where
  "wait_loop e k =
     (if ros_ok e k \<and> \<not> data_source_exhausted e k then wait_loop e (Suc k) else Some k)"

declare wait_loop.simps [code]

text \<open>Lines 272-287: construct, init, run, and fetch the exit signal.\<close>

definition ros_fatal_shutdown :: "world \<Rightarrow> world" where
  "ros_fatal_shutdown w = emit RosShutdown (emit RosFatal w)"

definition main_startup :: "env \<Rightarrow> ros_params \<Rightarrow> flags \<Rightarrow> unit outcome option" where
  "main_startup e ps f0 =
     (case init e (RovioliApp ps f0) of
        None \<Rightarrow> None
      | Some r \<Rightarrow>
          Some (bind r (\<lambda>ok w1.
            bind (run (if \<not> ok then ros_fatal_shutdown w1 else w1)) (\<lambda>started w2.
              shouldExit (if \<not> started then ros_fatal_shutdown w2 else w2)))))"

text \<open>Lines 293-297.\<close>

definition main_exit :: "env \<Rightarrow> world \<Rightarrow> int outcome" where
  "main_exit e w =
     bind (shutdown w) (\<lambda>_ w1.
       if FLAGS_save_map_on_shutdown (flags w1)
       then bind (saveMap e w1) (\<lambda>_ w2. Returned 0 w2)
       else Returned 0 w1)"

definition main :: "env \<Rightarrow> ros_params \<Rightarrow> flags \<Rightarrow> int outcome option" where
  "main e ps f0 =
     (case main_startup e ps f0 of
        None \<Rightarrow> None
      | Some (Fatal r w) \<Rightarrow> Some (Fatal r w)
      | Some (Returned _ w) \<Rightarrow>
          (case wait_loop e 0 of
             None \<Rightarrow> None
           | Some k \<Rightarrow> Some (main_exit e w)))"

subsection \<open>Calls on an initialized controller\<close>

text \<open>The public methods a caller may invoke once \<^verbatim>\<open>init\<close> has returned: \<^verbatim>\<open>main\<close> calls
  \<^verbatim>\<open>run\<close>, \<^verbatim>\<open>shouldExit\<close>, \<^verbatim>\<open>shutdown\<close> and \<^verbatim>\<open>saveMap\<close>, the ROS service calls
  \<^verbatim>\<open>saveMapCallback\<close>. A sequence of calls stops at the first one the process dies in.\<close>

datatype call = CallRun | CallShouldExit | CallSaveMap | CallSaveMapCallback | CallShutdown

fun do_call :: "env \<Rightarrow> call \<Rightarrow> world \<Rightarrow> unit outcome" where
  "do_call e CallRun w = bind (run w) (\<lambda>_. Returned ())"
| "do_call e CallShouldExit w = shouldExit w"
| "do_call e CallSaveMap w = bind (saveMap e w) (\<lambda>_. Returned ())"
| "do_call e CallSaveMapCallback w = bind (saveMapCallback e () () w) (\<lambda>_. Returned ())"
| "do_call e CallShutdown w = shutdown w"

fun do_calls :: "env \<Rightarrow> call list \<Rightarrow> world \<Rightarrow> unit outcome" where
  "do_calls e [] w = Returned () w"
| "do_calls e (c # cs) w = bind (do_call e c w) (\<lambda>_. do_calls e cs)"

subsection \<open>Vocabulary of the statements\<close>

fun world_of :: "'a outcome \<Rightarrow> world" where
  "world_of (Returned a w) = w"
| "world_of (Fatal r w) = w"

text \<open>The events by which \<^verbatim>\<open>init\<close> constructs the message flow and the node.\<close>

fun constructs :: "event \<Rightarrow> bool" where
  "constructs (MessageFlowCreate n) = True"
| "constructs (RovioliNodeConstruct p l) = True"
| "constructs ev = False"

text \<open>The events of lines 144-195 of \<^verbatim>\<open>init\<close>: loading and logging.\<close>

fun is_load_event :: "event \<Rightarrow> bool" where
  "is_load_event LogWarning = True"
| "is_load_event LogError = True"
| "is_load_event (SummaryMapLoadFromFolder p) = True"
| "is_load_event (LoadMapFromFolder p) = True"
| "is_load_event (CreateLocalizationSummaryMap p) = True"
| "is_load_event (NCameraLoadFromYaml p) = True"
| "is_load_event (ImuCreateFromYaml p) = True"
| "is_load_event (ImuSigmasLoadFromYaml p) = True"
| "is_load_event ev = False"

fun is_save :: "event \<Rightarrow> bool" where
  "is_save (RovioliNodeSaveMap p overwrite optimize ok) = True"
| "is_save ev = False"

text \<open>All the \<^verbatim>\<open>CHECK\<close>s of lines 144-188 hold for these flags in this environment.\<close>

definition init_checks_pass :: "env \<Rightarrow> flags \<Rightarrow> bool" where
  "init_checks_pass e f =
     ((FLAGS_vio_localization_map_folder f = []
        \<or> summary_map_loadFromFolder e (FLAGS_vio_localization_map_folder f)
        \<or> (vi_map_loadMapFromFolder e (FLAGS_vio_localization_map_folder f)
            \<and> 0 < summary_map_landmark_cols e (FLAGS_vio_localization_map_folder f)))
      \<and> ncamera_loadFromYaml e (FLAGS_ncamera_calibration f)
      \<and> imu_createFromYaml e (FLAGS_imu_parameters_maplab f) = Some True
      \<and> (FLAGS_external_imu_parameters_rovio f = []
          \<or> imu_sigmas_loadFromYaml e (FLAGS_external_imu_parameters_rovio f) = Some True))"

text \<open>\<open>w'\<close> comes from \<open>w\<close> by loading and logging only: flags and members other than
  \<^verbatim>\<open>localization_map_\<close> are as before.\<close>

definition loads_only :: "world \<Rightarrow> world \<Rightarrow> bool" where
  "loads_only w w' \<longleftrightarrow>
     flags w' = flags w \<and>
     this_message_flow (app w') = this_message_flow (app w) \<and>
     this_rovio_localization_node (app w') = this_rovio_localization_node (app w) \<and>
     this_save_map_folder (app w') = this_save_map_folder (app w) \<and>
     this_initialized (app w') = this_initialized (app w) \<and>
     (\<exists>evs. trace w' = trace w @ evs \<and> list_all is_load_event evs)"

text \<open>The event a save call records in \<open>w\<close>: the node's save method called with the
  member \<^verbatim>\<open>save_map_folder_\<close> and the two flags as they stand in \<open>w\<close>.\<close>

definition save_event :: "env \<Rightarrow> world \<Rightarrow> event" where
  "save_event e w =
     RovioliNodeSaveMap (this_save_map_folder (app w)) (FLAGS_overwrite_existing_map (flags w))
       (FLAGS_optimize_map_to_localization_map (flags w))
       (persist_succeeds e (this_save_map_folder (app w))
          (FLAGS_overwrite_existing_map (flags w))
          (FLAGS_optimize_map_to_localization_map (flags w)))"

text \<open>\<open>w'\<close> comes from \<open>w\<close> by calls that leave flags and members alone and save, if at
  all, with the folder and flags of \<open>w\<close>.\<close>

definition calls_only :: "env \<Rightarrow> world \<Rightarrow> world \<Rightarrow> bool" where
  "calls_only e w w' \<longleftrightarrow>
     flags w' = flags w \<and> app w' = app w \<and>
     (\<exists>evs. trace w' = trace w @ evs \<and>
        (\<forall>ev\<in>set evs. is_save ev \<longrightarrow>
           ev = save_event e w \<and> this_save_map_folder (app w) \<noteq> []))"

subsection \<open>Example inputs\<close>

text \<open>No ROS parameter set; the flag defaults of lines 20-43 with a save folder; an
  environment in which every load succeeds, the save folder exists as a directory, and the
  data source is exhausted at the third look.\<close>

definition no_params :: ros_params where
  "no_params = \<lparr>param_vio_localization_map_folder = None, param_ncamera_calibration = None,
     param_imu_parameters_maplab = None, param_save_map_folder = None,
     param_overwrite_existing_map = None, param_optimize_map_to_localization_map = None,
     param_save_map_on_shutdown = None, param_publish_debug_markers = None,
     param_frame_visualization = None, param_bagfile = None\<rparr>"

definition example_flags :: flags where
  "example_flags = \<lparr>FLAGS_vio_localization_map_folder = [],
     FLAGS_ncamera_calibration = ''ncamera.yaml'',
     FLAGS_imu_parameters_maplab = ''imu-maplab.yaml'',
     FLAGS_external_imu_parameters_rovio = [],
     FLAGS_save_map_folder = ''/maps/out'',
     FLAGS_overwrite_existing_map = False,
     FLAGS_optimize_map_to_localization_map = False,
     FLAGS_save_map_on_shutdown = True,
     FLAGS_map_builder_save_image_as_resources = False,
     FLAGS_datasource_type = ''rostopic'',
     FLAGS_datasource_rosbag = [],
     FLAGS_publish_debug_markers = False,
     FLAGS_rovio_enable_frame_visualization = False\<rparr>"

definition example_env :: env where
  "example_env = \<lparr>fileExists = (\<lambda>p. False), pathExists = (\<lambda>p. p = ''/maps/out''),
     summary_map_loadFromFolder = (\<lambda>p. False), vi_map_loadMapFromFolder = (\<lambda>p. False),
     summary_map_landmark_cols = (\<lambda>p. 0), ncamera_loadFromYaml = (\<lambda>p. True),
     imu_createFromYaml = (\<lambda>p. Some True), imu_sigmas_loadFromYaml = (\<lambda>p. Some True),
     getNumHardwareThreads = 4, persist_succeeds = (\<lambda>p overwrite optimize. True),
     ros_ok = (\<lambda>k. True), data_source_exhausted = (\<lambda>k. 2 \<le> k)\<rparr>"

text \<open>The controller after \<^verbatim>\<open>init\<close> on the example inputs, in an environment that differs
  from \<open>example_env\<close> at most in \<open>persist_succeeds\<close>.\<close>

definition example_world :: world where
  "example_world = \<lparr>flags = example_flags,
     app = \<lparr>this_initialized = True, this_save_map_folder = ''/maps/out_0'',
            this_message_flow = True, this_localization_map = False,
            this_rovio_localization_node = True\<rparr>,
     trace = [AdvertiseService, NCameraLoadFromYaml ''ncamera.yaml'',
              ImuCreateFromYaml ''imu-maplab.yaml'', MessageFlowCreate 4,
              RovioliNodeConstruct ''/maps/out_0'' False]\<rparr>"

section \<open>Properties\<close>

subsection \<open>Basic facts\<close>

lemmas model_defs =
  RovioliApp_def override_flags_def select_datasource_def param_def
  init_def init_load_localization_map_def init_load_sensors_def init_construct_def
  set_localization_map_def CHECK_def emit_def Let_def
  allocate_save_folder_def taken_def suffixed_def digit_char_def
  run_def shouldExit_def saveMap_def saveMapCallback_def shutdown_def
  main_def main_startup_def main_exit_def ros_fatal_shutdown_def

lemmas example_defs = no_params_def example_flags_def example_env_def example_world_def

lemma emit_simps [simp]:
  "trace (emit ev w) = trace w @ [ev]" "flags (emit ev w) = flags w" "app (emit ev w) = app w"
  by (simp_all add: emit_def)

lemma example_world_reached:
  "init (example_env\<lparr>persist_succeeds := ok\<rparr>) (RovioliApp no_params example_flags) =
     Some (Returned True example_world)"
  by (simp add: model_defs example_defs allocate_loop.simps to_string.simps)

lemma set_localization_map_simps [simp]:
  "trace (set_localization_map b w) = trace w"
  "flags (set_localization_map b w) = flags w"
  "this_localization_map (app (set_localization_map b w)) = b"
  "this_message_flow (app (set_localization_map b w)) = this_message_flow (app w)"
  "this_rovio_localization_node (app (set_localization_map b w)) =
     this_rovio_localization_node (app w)"
  "this_save_map_folder (app (set_localization_map b w)) = this_save_map_folder (app w)"
  "this_initialized (app (set_localization_map b w)) = this_initialized (app w)"
  by (simp_all add: set_localization_map_def)

lemma load_event_kinds: "is_load_event ev \<Longrightarrow> \<not> constructs ev \<and> \<not> is_save ev"
  by (cases ev) simp_all

lemma load_events_kinds:
  "list_all is_load_event evs \<Longrightarrow> ev \<in> set evs \<Longrightarrow> \<not> constructs ev \<and> \<not> is_save ev"
  by (simp add: list_all_iff load_event_kinds)

subsection \<open>The allocation loop\<close>

lemma allocate_loop_free:
  "\<not> taken e ow cur \<Longrightarrow> allocate_loop e ow base cur c = Some cur"
  by (subst allocate_loop.simps) simp

text \<open>A result of the loop is not taken, and is the start value or a suffixed path.\<close>

lemma allocate_loop_result:
  "allocate_loop e ow base cur c = Some r \<Longrightarrow>
     \<not> taken e ow r \<and> (r = cur \<or> (\<exists>k<2^64. r = suffixed base k))"
proof (induction rule: allocate_loop.raw_induct[rotated 1, consumes 1])
  case (1 f e ow base cur c r)
  show ?case
  proof (cases "taken e ow cur")
    case True
    with 1(2) have "f e ow base (suffixed base (unat c)) (c + 1) = Some r" by simp
    from 1(1)[OF this] have "\<not> taken e ow r"
      and "r = suffixed base (unat c) \<or> (\<exists>k<2^64. r = suffixed base k)" by simp_all
    moreover have "unat c < 2 ^ 64" using unsigned_less [of c, where 'a = nat] by simp
    ultimately show ?thesis by blast
  next
    case False
    with 1(2) show ?thesis by simp
  qed
qed

text \<open>The loop ends at the first free suffix at or after the counter, as long as the
  counter does not wrap before it.\<close>

lemma allocate_loop_least:
  assumes "\<not> taken e ow (suffixed base n)"
    and "\<forall>j. m \<le> j \<and> j < n \<longrightarrow> taken e ow (suffixed base j)"
    and "m \<le> n" and "n < 2 ^ 64" and "taken e ow cur"
  shows "allocate_loop e ow base cur (of_nat m) = Some (suffixed base n)"
  using assms
proof (induction "n - m" arbitrary: m cur)
  case 0
  then have "m = n" by simp
  have u: "unat (of_nat n :: 64 word) = n" using 0 by (simp add: unat_of_nat)
  show ?case using 0 u \<open>m = n\<close>
    by (subst allocate_loop.simps) (simp add: allocate_loop_free)
next
  case (Suc d)
  then have lt: "m < n" by simp
  have u: "unat (of_nat m :: 64 word) = m" using Suc lt by (simp add: unat_of_nat)
  have t: "taken e ow (suffixed base m)" using Suc lt by simp
  have "allocate_loop e ow base (suffixed base m) (of_nat (Suc m)) = Some (suffixed base n)"
    using Suc lt t by (intro Suc.hyps(1)) auto
  then show ?case using Suc.prems u
    by (subst allocate_loop.simps) (simp add: add.commute)
qed

lemma suffixed_neq_base: "suffixed base n \<noteq> base"
  by (simp add: suffixed_def)

subsection \<open>The loading part of init\<close>

lemma loads_only_trans: "loads_only w w1 \<Longrightarrow> loads_only w1 w2 \<Longrightarrow> loads_only w w2"
  by (auto simp: loads_only_def)

lemma load_localization_map_loads_only:
  "loads_only w (world_of (init_load_localization_map e w))"
  by (simp add: init_load_localization_map_def Let_def CHECK_def loads_only_def)

lemma load_sensors_loads_only:
  "loads_only w (world_of (init_load_sensors e w))"
  by (simp add: init_load_sensors_def Let_def CHECK_def loads_only_def)

lemma load_localization_map_result:
  "init_load_localization_map e w =
     (if FLAGS_vio_localization_map_folder (flags w) = []
         \<or> summary_map_loadFromFolder e (FLAGS_vio_localization_map_folder (flags w))
         \<or> (vi_map_loadMapFromFolder e (FLAGS_vio_localization_map_folder (flags w))
            \<and> 0 < summary_map_landmark_cols e (FLAGS_vio_localization_map_folder (flags w)))
      then Returned () (world_of (init_load_localization_map e w))
      else Fatal CheckFailed (world_of (init_load_localization_map e w)))"
  by (simp add: init_load_localization_map_def Let_def CHECK_def)

lemma load_sensors_result:
  "init_load_sensors e w =
     (if ncamera_loadFromYaml e (FLAGS_ncamera_calibration (flags w))
         \<and> imu_createFromYaml e (FLAGS_imu_parameters_maplab (flags w)) = Some True
         \<and> (FLAGS_external_imu_parameters_rovio (flags w) = []
            \<or> imu_sigmas_loadFromYaml e (FLAGS_external_imu_parameters_rovio (flags w))
                = Some True)
      then Returned () (world_of (init_load_sensors e w))
      else Fatal CheckFailed (world_of (init_load_sensors e w)))"
  by (auto simp add: init_load_sensors_def Let_def CHECK_def)

lemma init_loads_result:
  "\<exists>w1. loads_only w w1 \<and>
     bind (init_load_localization_map e w) (\<lambda>_. init_load_sensors e) =
       (if init_checks_pass e (flags w) then Returned () w1 else Fatal CheckFailed w1)"
proof -
  let ?wa = "world_of (init_load_localization_map e w)"
  let ?wb = "world_of (init_load_sensors e ?wa)"
  have a: "loads_only w ?wa" by (rule load_localization_map_loads_only)
  have b: "loads_only w ?wb" using a load_sensors_loads_only by (rule loads_only_trans)
  have fa: "flags ?wa = flags w" using a by (simp add: loads_only_def)
  show ?thesis
  proof (cases "FLAGS_vio_localization_map_folder (flags w) = []
         \<or> summary_map_loadFromFolder e (FLAGS_vio_localization_map_folder (flags w))
         \<or> (vi_map_loadMapFromFolder e (FLAGS_vio_localization_map_folder (flags w))
            \<and> 0 < summary_map_landmark_cols e (FLAGS_vio_localization_map_folder (flags w)))")
    case True
    then have r: "init_load_localization_map e w = Returned () ?wa"
      by (subst load_localization_map_result) simp
    have "bind (init_load_localization_map e w) (\<lambda>_. init_load_sensors e) =
       (if init_checks_pass e (flags w) then Returned () ?wb else Fatal CheckFailed ?wb)"
      using True fa by (subst r, simp only: bind.simps, subst load_sensors_result)
        (auto simp: init_checks_pass_def)
    with b show ?thesis by blast
  next
    case False
    then have r: "init_load_localization_map e w = Fatal CheckFailed ?wa"
      by (subst load_localization_map_result) simp
    have "bind (init_load_localization_map e w) (\<lambda>_. init_load_sensors e) =
       (if init_checks_pass e (flags w) then Returned () ?wa else Fatal CheckFailed ?wa)"
      using False by (subst r) (auto simp: init_checks_pass_def)
    with a show ?thesis by blast
  qed
qed

text \<open>What init returns, after a world \<open>w1\<close> reached by loading only.\<close>

lemma init_result:
  "\<exists>w1. loads_only w w1 \<and>
     init e w =
       (if \<not> init_checks_pass e (flags w) then Some (Fatal CheckFailed w1)
        else if FLAGS_map_builder_save_image_as_resources (flags w) \<and>
                FLAGS_save_map_folder (flags w) = []
        then Some (Returned False (emit LogError w1))
        else
          (case allocate_save_folder e (FLAGS_overwrite_existing_map (flags w))
                  (FLAGS_save_map_folder (flags w)) of
             None \<Rightarrow> None
           | Some folder \<Rightarrow>
               Some (Returned True
                 (init_construct e (w1\<lparr>app := (app w1)\<lparr>this_save_map_folder := folder\<rparr>\<rparr>)))))"
proof -
  obtain w1 where l: "loads_only w w1"
    and r: "bind (init_load_localization_map e w) (\<lambda>_. init_load_sensors e) =
       (if init_checks_pass e (flags w) then Returned () w1 else Fatal CheckFailed w1)"
    using init_loads_result by blast
  have f: "flags w1 = flags w" using l by (simp add: loads_only_def)
  have "init e w = (if \<not> init_checks_pass e (flags w) then Some (Fatal CheckFailed w1)
        else if FLAGS_map_builder_save_image_as_resources (flags w) \<and>
                FLAGS_save_map_folder (flags w) = []
        then Some (Returned False (emit LogError w1))
        else
          (case allocate_save_folder e (FLAGS_overwrite_existing_map (flags w))
                  (FLAGS_save_map_folder (flags w)) of
             None \<Rightarrow> None
           | Some folder \<Rightarrow>
               Some (Returned True
                 (init_construct e (w1\<lparr>app := (app w1)\<lparr>this_save_map_folder := folder\<rparr>\<rparr>)))))"
    unfolding init_def r using f by simp
  with l show ?thesis by blast
qed

text \<open>The four ways init ends: a failed \<^verbatim>\<open>CHECK\<close>, the rejection at lines 190-195, a loop
  that never ends, or the construction of the controller.\<close>

lemma init_cases [case_names aborted rejected diverges constructed]:
  obtains w1 where "loads_only w w1" and "\<not> init_checks_pass e (flags w)"
      and "init e w = Some (Fatal CheckFailed w1)"
  | w1 where "loads_only w w1" and "init_checks_pass e (flags w)"
      and "FLAGS_map_builder_save_image_as_resources (flags w)"
      and "FLAGS_save_map_folder (flags w) = []"
      and "init e w = Some (Returned False (emit LogError w1))"
  | "init_checks_pass e (flags w)"
      and "\<not> (FLAGS_map_builder_save_image_as_resources (flags w)
             \<and> FLAGS_save_map_folder (flags w) = [])"
      and "allocate_save_folder e (FLAGS_overwrite_existing_map (flags w))
             (FLAGS_save_map_folder (flags w)) = None"
      and "init e w = None"
  | w1 folder where "loads_only w w1" and "init_checks_pass e (flags w)"
      and "\<not> (FLAGS_map_builder_save_image_as_resources (flags w)
             \<and> FLAGS_save_map_folder (flags w) = [])"
      and "allocate_save_folder e (FLAGS_overwrite_existing_map (flags w))
             (FLAGS_save_map_folder (flags w)) = Some folder"
      and "init e w = Some (Returned True
             (init_construct e (w1\<lparr>app := (app w1)\<lparr>this_save_map_folder := folder\<rparr>\<rparr>)))"
proof -
  obtain w1 where l: "loads_only w w1"
    and i: "init e w =
       (if \<not> init_checks_pass e (flags w) then Some (Fatal CheckFailed w1)
        else if FLAGS_map_builder_save_image_as_resources (flags w) \<and>
                FLAGS_save_map_folder (flags w) = []
        then Some (Returned False (emit LogError w1))
        else
          (case allocate_save_folder e (FLAGS_overwrite_existing_map (flags w))
                  (FLAGS_save_map_folder (flags w)) of
             None \<Rightarrow> None
           | Some folder \<Rightarrow>
               Some (Returned True
                 (init_construct e (w1\<lparr>app := (app w1)\<lparr>this_save_map_folder := folder\<rparr>\<rparr>)))))"
    using init_result by blast
  show thesis
  proof (cases "init_checks_pass e (flags w)")
    case False
    then have "init e w = Some (Fatal CheckFailed w1)" using i by simp
    with l False show thesis by (rule that(1))
  next
    case pass: True
    show thesis
    proof (cases "FLAGS_map_builder_save_image_as_resources (flags w)
             \<and> FLAGS_save_map_folder (flags w) = []")
      case True
      then have "init e w = Some (Returned False (emit LogError w1))" using i pass by simp
      with l pass True show thesis by (intro that(2)) simp_all
    next
      case no: False
      show thesis
      proof (cases "allocate_save_folder e (FLAGS_overwrite_existing_map (flags w))
             (FLAGS_save_map_folder (flags w))")
        case None
        then have "init e w = None" using i pass no by simp
        with pass no None show thesis by (rule that(3))
      next
        case (Some folder)
        then have "init e w = Some (Returned True
             (init_construct e (w1\<lparr>app := (app w1)\<lparr>this_save_map_folder := folder\<rparr>\<rparr>)))"
          using i pass no by simp
        with l pass no Some show thesis by (rule that(4))
      qed
    qed
  qed
qed

section \<open>The claims\<close>

subsection \<open>Allocation of the save folder\<close>

text \<open>
  C1, as stated, fails: with overwrite allowed the loop at lines 202-207 still runs while
  \<^verbatim>\<open>fileExists\<close> holds of the candidate. A regular file at the requested path
  \<^verbatim>\<open>/maps/out\<close> makes the allocation, and \<^verbatim>\<open>init\<close>, resolve to \<^verbatim>\<open>/maps/out_0\<close>.
\<close>

theorem allocate_overwrite_file_counterexample:
  "allocate_save_folder (example_env\<lparr>fileExists := (\<lambda>p. p = ''/maps/out'')\<rparr>) True ''/maps/out''
     = Some ''/maps/out_0''
   \<and> map_option (\<lambda>r. this_save_map_folder (app (world_of r)))
       (init (example_env\<lparr>fileExists := (\<lambda>p. p = ''/maps/out'')\<rparr>)
          (RovioliApp no_params (example_flags\<lparr>FLAGS_overwrite_existing_map := True\<rparr>)))
     = Some ''/maps/out_0''"
  by (simp add: model_defs example_defs allocate_loop.simps to_string.simps)

text \<open>
  C1 (amended): for every requested save path \<open>p\<close>, with overwrite allowed the allocation
  resolves to \<open>p\<close> itself exactly when \<open>p\<close> is empty or \<^verbatim>\<open>fileExists\<close> does not hold of \<open>p\<close>;
  whether \<^verbatim>\<open>pathExists\<close> holds of \<open>p\<close> plays no role. Any other result is \<open>p\<close> with a
  numeric suffix, for a \<open>p\<close> of which \<^verbatim>\<open>fileExists\<close> holds.
\<close>

theorem allocate_overwrite_keeps_path:
  "(allocate_save_folder e True p = Some p \<longleftrightarrow> p = [] \<or> \<not> fileExists e p)
   \<and> (\<forall>r. allocate_save_folder e True p = Some r \<and> r \<noteq> p \<longrightarrow>
          fileExists e p \<and> \<not> fileExists e r \<and> (\<exists>k<2^64. r = suffixed p k))"
proof (cases "p = []")
  case True
  then show ?thesis by (simp add: allocate_save_folder_def)
next
  case False
  then have a: "allocate_save_folder e True p = allocate_loop e True p p 0"
    by (simp add: allocate_save_folder_def)
  show ?thesis
  proof (cases "fileExists e p")
    case True
    have "\<not> fileExists e r \<and> r \<noteq> p \<and> (\<exists>k<2^64. r = suffixed p k)"
      if "allocate_loop e True p p 0 = Some r" for r
      using allocate_loop_result [OF that] True by (auto simp: taken_def)
    with True False a show ?thesis by auto
  next
    case False
    then have "allocate_loop e True p p 0 = Some p"
      by (simp add: allocate_loop_free taken_def)
    with False a show ?thesis by simp
  qed
qed

theorem allocate_overwrite_keeps_path_witness:
  "pathExists example_env ''/maps/out'' \<and> \<not> fileExists example_env ''/maps/out''
   \<and> allocate_save_folder example_env True ''/maps/out'' = Some ''/maps/out''"
  using allocate_overwrite_keeps_path [of example_env "''/maps/out''"]
  by (simp add: example_env_def)

text \<open>
  C3: for every requested save path \<open>p\<close> (not empty, so that the loop is entered) that
  exists, as a regular file or as a directory, with overwrite not allowed, the allocation
  returns \<open>p_m\<close> for the smallest \<open>m\<close> such that \<open>p_m\<close> does not exist; the result differs
  from \<open>p\<close> and from every existing path. That some suffix below \<open>2^64\<close> is free is what
  makes the loop end: the counter is a \<^verbatim>\<open>size_t\<close>.
\<close>

theorem allocate_smallest_free_suffix:
  assumes "p \<noteq> []" and "fileExists e p \<or> pathExists e p"
    and "n < 2 ^ 64"
    and "\<not> fileExists e (suffixed p n)" and "\<not> pathExists e (suffixed p n)"
  shows "\<exists>m\<le>n. allocate_save_folder e False p = Some (suffixed p m)
           \<and> m = (LEAST j. \<not> fileExists e (suffixed p j) \<and> \<not> pathExists e (suffixed p j))
           \<and> \<not> fileExists e (suffixed p m) \<and> \<not> pathExists e (suffixed p m)
           \<and> (\<forall>j<m. fileExists e (suffixed p j) \<or> pathExists e (suffixed p j))
           \<and> suffixed p m \<noteq> p
           \<and> (\<forall>q. fileExists e q \<or> pathExists e q \<longrightarrow> q \<noteq> suffixed p m)"
proof -
  let ?free = "\<lambda>j. \<not> fileExists e (suffixed p j) \<and> \<not> pathExists e (suffixed p j)"
  define m where "m = (LEAST j. ?free j)"
  have fn: "?free n" using assms by simp
  have fm: "?free m" unfolding m_def using fn by (rule LeastI)
  have le: "m \<le> n" unfolding m_def using fn by (rule Least_le)
  have below: "\<And>j. j < m \<Longrightarrow> \<not> ?free j" unfolding m_def by (rule not_less_Least)
  have "allocate_loop e False p p (of_nat 0) = Some (suffixed p m)"
  proof (rule allocate_loop_least)
    show "\<not> taken e False (suffixed p m)" using fm by (simp add: taken_def)
    show "\<forall>j. 0 \<le> j \<and> j < m \<longrightarrow> taken e False (suffixed p j)"
      using below by (auto simp: taken_def)
    show "m < 2 ^ 64" using le assms(3) by simp
    show "taken e False p" using assms(2) by (simp add: taken_def)
  qed simp
  then have "allocate_save_folder e False p = Some (suffixed p m)"
    using assms(1) by (simp add: allocate_save_folder_def)
  then show ?thesis using fm le below suffixed_neq_base m_def by blast
qed

theorem allocate_smallest_free_suffix_witness:
  "allocate_save_folder
     (example_env\<lparr>fileExists := (\<lambda>p. p = ''/maps/out_0''),
                  pathExists := (\<lambda>p. p = ''/maps/out'' \<or> p = ''/maps/out_1'')\<rparr>)
     False ''/maps/out'' = Some ''/maps/out_2''"
proof -
  let ?e = "example_env\<lparr>fileExists := (\<lambda>p. p = ''/maps/out_0''),
                  pathExists := (\<lambda>p. p = ''/maps/out'' \<or> p = ''/maps/out_1'')\<rparr>"
  have s: "suffixed ''/maps/out'' 0 = ''/maps/out_0''"
    "suffixed ''/maps/out'' (Suc 0) = ''/maps/out_1''"
    "suffixed ''/maps/out'' 2 = ''/maps/out_2''"
    by (simp_all add: suffixed_def to_string.simps digit_char_def)
  obtain m where m: "m \<le> 2"
    and r: "allocate_save_folder ?e False ''/maps/out'' = Some (suffixed ''/maps/out'' m)"
    and f: "\<not> fileExists ?e (suffixed ''/maps/out'' m)"
    and d: "\<not> pathExists ?e (suffixed ''/maps/out'' m)"
    using allocate_smallest_free_suffix [of "''/maps/out''" ?e 2] by (auto simp: s)
  from m have "m = 0 \<or> m = Suc 0 \<or> m = 2" by arith
  with f d have "m = 2" by (auto simp: s)
  with r show ?thesis by (simp add: s)
qed

subsection \<open>Saving\<close>

text \<open>
  C2, as stated, fails: \<^verbatim>\<open>saveMap\<close> does not look at what the node's save call returns or
  does. On the controller that \<^verbatim>\<open>init\<close> leaves for the example inputs, in an environment
  in which the persist operation fails, \<^verbatim>\<open>saveMap\<close> and the service callback return true.
\<close>

theorem saveMap_persist_failure_counterexample:
  "init (example_env\<lparr>persist_succeeds := (\<lambda>p overwrite optimize. False)\<rparr>)
     (RovioliApp no_params example_flags) = Some (Returned True example_world)
   \<and> this_save_map_folder (app example_world) = ''/maps/out_0''
   \<and> \<not> persist_succeeds (example_env\<lparr>persist_succeeds := (\<lambda>p overwrite optimize. False)\<rparr>)
         ''/maps/out_0'' False False
   \<and> saveMap (example_env\<lparr>persist_succeeds := (\<lambda>p overwrite optimize. False)\<rparr>) example_world
       = Returned True (emit (RovioliNodeSaveMap ''/maps/out_0'' False False False) example_world)
   \<and> saveMapCallback (example_env\<lparr>persist_succeeds := (\<lambda>p overwrite optimize. False)\<rparr>) () ()
         example_world
       = Returned True (emit (RovioliNodeSaveMap ''/maps/out_0'' False False False) example_world)"
  using example_world_reached [of "\<lambda>p overwrite optimize. False"]
  by (simp add: saveMap_def saveMapCallback_def example_defs Let_def)

text \<open>
  C2 (amended): for every non-empty resolved save path, on a controller whose node is
  constructed, \<^verbatim>\<open>saveMap\<close> calls the node's save method once, with that path and the two
  flags, and returns true whether or not the persist operation succeeds; the service
  callback returns what \<^verbatim>\<open>saveMap\<close> returns.
\<close>

theorem saveMap_returns_true_whatever_persist:
  assumes "this_save_map_folder (app w) \<noteq> []" and "this_rovio_localization_node (app w)"
  shows "saveMap e w = Returned True (emit (save_event e w) w)
         \<and> saveMapCallback e request response w = saveMap e w"
  using assms by (simp add: saveMap_def saveMapCallback_def save_event_def Let_def)

theorem saveMap_returns_true_whatever_persist_witness:
  "saveMap example_env example_world
     = Returned True (emit (RovioliNodeSaveMap ''/maps/out_0'' False False True) example_world)
   \<and> saveMapCallback example_env () () example_world = saveMap example_env example_world"
  using saveMap_returns_true_whatever_persist [of example_world example_env "()" "()"]
  by (simp add: save_event_def example_defs)

lemma saveMap_calls_only: "calls_only e w (world_of (saveMap e w))"
  by (simp add: saveMap_def calls_only_def save_event_def Let_def)

lemma run_calls_only: "calls_only e w (world_of (run w))"
  by (simp add: run_def calls_only_def Let_def)

lemma shouldExit_calls_only: "calls_only e w (world_of (shouldExit w))"
  by (simp add: shouldExit_def CHECK_def calls_only_def)

lemma shutdown_calls_only: "calls_only e w (world_of (shutdown w))"
  by (simp add: shutdown_def calls_only_def Let_def)

lemma world_of_bind_Returned [simp]:
  "world_of (bind r (\<lambda>_. Returned a)) = world_of r"
  by (cases r) simp_all

lemma do_call_calls_only: "calls_only e w (world_of (do_call e c w))"
  by (cases c)
    (simp_all add: saveMap_calls_only run_calls_only shouldExit_calls_only
       shutdown_calls_only saveMapCallback_def)

lemma calls_only_trans:
  assumes "calls_only e w w1" and "calls_only e w1 w2"
  shows "calls_only e w w2"
proof -
  have eq: "flags w1 = flags w" "app w1 = app w" using assms(1) by (simp_all add: calls_only_def)
  then have se: "save_event e w1 = save_event e w" by (simp add: save_event_def)
  show ?thesis using assms eq se by (auto simp: calls_only_def)
qed

lemma do_calls_calls_only: "calls_only e w (world_of (do_calls e cs w))"
proof (induction cs arbitrary: w)
  case Nil
  show ?case by (simp add: calls_only_def)
next
  case (Cons c cs)
  show ?case
  proof (cases "do_call e c w")
    case (Returned u w1)
    then have "calls_only e w w1" using do_call_calls_only [of e w c] by simp
    then show ?thesis using Returned Cons.IH [of w1] by (simp add: calls_only_trans)
  next
    case (Fatal r w1)
    then show ?thesis using do_call_calls_only [of e w c] by simp
  qed
qed

text \<open>
  C4: when the configured save folder (the flag after the constructor's overrides) is
  empty, \<^verbatim>\<open>init\<close> ends and leaves the resolved save path empty, and after any calls the
  path is still empty; and whenever the resolved path is empty, \<^verbatim>\<open>saveMap\<close> and the service
  callback return false and leave the world, its trace included, as it was: no call into
  the node, nothing written.
\<close>

theorem saveMap_without_folder_fails:
  assumes "FLAGS_save_map_folder (flags (RovioliApp ps f0)) = []"
  shows "(\<exists>out. init e (RovioliApp ps f0) = Some out
            \<and> (\<forall>cs. this_save_map_folder (app (world_of (do_calls e cs (world_of out)))) = []))
         \<and> (\<forall>w. this_save_map_folder (app w) = [] \<longrightarrow>
               saveMap e w = Returned False w
               \<and> saveMapCallback e request response w = Returned False w)"
proof -
  let ?w0 = "RovioliApp ps f0"
  have m0: "this_save_map_folder (app ?w0) = []"
    by (simp add: RovioliApp_def Let_def split: prod.splits)
  have a: "allocate_save_folder e (FLAGS_overwrite_existing_map (flags ?w0))
             (FLAGS_save_map_folder (flags ?w0)) = Some []"
    using assms by (simp add: allocate_save_folder_def)
  have "\<exists>out. init e ?w0 = Some out \<and> this_save_map_folder (app (world_of out)) = []"
  proof (cases rule: init_cases [of ?w0 e])
    case (aborted w1)
    then show ?thesis using m0 by (simp add: loads_only_def)
  next
    case (rejected w1)
    then show ?thesis using m0 by (simp add: loads_only_def)
  next
    case diverges
    then show ?thesis using a by simp
  next
    case (constructed w1 folder)
    then show ?thesis using a by (simp add: init_construct_def Let_def)
  qed
  then obtain out where o: "init e ?w0 = Some out"
    and mo: "this_save_map_folder (app (world_of out)) = []" by blast
  have "\<And>cs. this_save_map_folder (app (world_of (do_calls e cs (world_of out)))) = []"
    using do_calls_calls_only [of e "world_of out"] mo by (simp add: calls_only_def)
  with o show ?thesis by (simp add: saveMap_def saveMapCallback_def)
qed

theorem saveMap_without_folder_fails_witness:
  "FLAGS_save_map_folder
     (flags (RovioliApp no_params (example_flags\<lparr>FLAGS_save_map_folder := []\<rparr>))) = []
   \<and> saveMap example_env (RovioliApp no_params (example_flags\<lparr>FLAGS_save_map_folder := []\<rparr>))
       = Returned False (RovioliApp no_params (example_flags\<lparr>FLAGS_save_map_folder := []\<rparr>))
   \<and> saveMapCallback example_env () ()
         (RovioliApp no_params (example_flags\<lparr>FLAGS_save_map_folder := []\<rparr>))
       = Returned False (RovioliApp no_params (example_flags\<lparr>FLAGS_save_map_folder := []\<rparr>))"
proof -
  let ?f = "example_flags\<lparr>FLAGS_save_map_folder := []\<rparr>"
  have c: "FLAGS_save_map_folder (flags (RovioliApp no_params ?f)) = []"
    by (simp add: model_defs example_defs)
  have m: "this_save_map_folder (app (RovioliApp no_params ?f)) = []"
    by (simp add: model_defs example_defs)
  from saveMap_without_folder_fails [OF c, of example_env "()" "()"] m c
  show ?thesis by blast
qed

subsection \<open>Shutdown\<close>

text \<open>
  C6: \<^verbatim>\<open>shutdown\<close> stops the node, then shuts the message flow down and waits until it
  is idle, and then returns. On a controller whose node and message flow are constructed
  it returns after exactly these three calls in this order; whenever it returns, they have
  been made in this order; and when the process dies in it, the flow has not been touched
  (no flush before the stop).
\<close>

theorem shutdown_stops_then_flushes:
  "(this_rovio_localization_node (app w) \<and> this_message_flow (app w) \<longrightarrow>
      shutdown w = Returned ()
        (emit MessageFlowWaitUntilIdle (emit MessageFlowShutdown (emit RovioliNodeShutdown w))))
   \<and> (\<forall>w'. shutdown w = Returned () w' \<longrightarrow>
         flags w' = flags w \<and> app w' = app w \<and>
         trace w' = trace w @ [RovioliNodeShutdown, MessageFlowShutdown, MessageFlowWaitUntilIdle])
   \<and> (\<forall>r w'. shutdown w = Fatal r w' \<longrightarrow>
         trace w' = trace w \<or> trace w' = trace w @ [RovioliNodeShutdown])"
  by (auto simp: shutdown_def Let_def)

theorem shutdown_stops_then_flushes_witness:
  "shutdown example_world = Returned ()
     (emit MessageFlowWaitUntilIdle (emit MessageFlowShutdown (emit RovioliNodeShutdown
        example_world)))
   \<and> trace (world_of (shutdown example_world)) =
       trace example_world @ [RovioliNodeShutdown, MessageFlowShutdown, MessageFlowWaitUntilIdle]"
proof -
  have n: "this_rovio_localization_node (app example_world) \<and> this_message_flow (app example_world)"
    by (simp add: example_defs)
  from shutdown_stops_then_flushes [of example_world] n
  have "shutdown example_world = Returned ()
     (emit MessageFlowWaitUntilIdle (emit MessageFlowShutdown (emit RovioliNodeShutdown
        example_world)))" by blast
  then show ?thesis by simp
qed

subsection \<open>Initialization failures\<close>

text \<open>
  C8, as stated, fails: the test of lines 190-195 comes after the \<^verbatim>\<open>CHECK\<close>s of lines
  144-188. With resource saving on, no save folder, and a camera calibration that does
  not load, \<^verbatim>\<open>init\<close> does not return false: the process is aborted in it.
\<close>

theorem init_resources_bad_calibration_counterexample:
  "FLAGS_map_builder_save_image_as_resources
     (flags (RovioliApp no_params
        (example_flags\<lparr>FLAGS_save_map_folder := [],
                        FLAGS_map_builder_save_image_as_resources := True\<rparr>)))
   \<and> FLAGS_save_map_folder
       (flags (RovioliApp no_params
          (example_flags\<lparr>FLAGS_save_map_folder := [],
                          FLAGS_map_builder_save_image_as_resources := True\<rparr>))) = []
   \<and> init (example_env\<lparr>ncamera_loadFromYaml := (\<lambda>p. False)\<rparr>)
       (RovioliApp no_params
          (example_flags\<lparr>FLAGS_save_map_folder := [],
                          FLAGS_map_builder_save_image_as_resources := True\<rparr>))
     = Some (Fatal CheckFailed
         (emit (NCameraLoadFromYaml ''ncamera.yaml'')
            (RovioliApp no_params
               (example_flags\<lparr>FLAGS_save_map_folder := [],
                               FLAGS_map_builder_save_image_as_resources := True\<rparr>))))"
  by (simp add: model_defs example_defs)

text \<open>
  C8 (amended): if resource saving is enabled while the save folder is empty, \<^verbatim>\<open>init\<close>
  ends without constructing the message flow or the node and without setting
  \<^verbatim>\<open>initialized_\<close>. When the \<^verbatim>\<open>CHECK\<close>s on the localization map, the camera calibration
  and the IMU parameters all hold, it logs an error, last, and returns false; when one of
  them does not, the process is aborted at it.
\<close>

theorem init_rejects_resources_without_folder:
  assumes "FLAGS_map_builder_save_image_as_resources (flags w)"
    and "FLAGS_save_map_folder (flags w) = []"
  shows "\<exists>w'. init e w =
             Some (if init_checks_pass e (flags w) then Returned False w'
                   else Fatal CheckFailed w')
           \<and> (init_checks_pass e (flags w) \<longrightarrow> last (trace w') = LogError)
           \<and> this_message_flow (app w') = this_message_flow (app w)
           \<and> this_rovio_localization_node (app w') = this_rovio_localization_node (app w)
           \<and> this_initialized (app w') = this_initialized (app w)
           \<and> (\<exists>evs. trace w' = trace w @ evs \<and> (\<forall>ev\<in>set evs. \<not> constructs ev))"
proof -
  have frame: "\<exists>evs'. trace w1 = trace w @ evs' \<and> (\<forall>ev\<in>set evs'. \<not> constructs ev)"
    "this_message_flow (app w1) = this_message_flow (app w)"
    "this_rovio_localization_node (app w1) = this_rovio_localization_node (app w)"
    "this_initialized (app w1) = this_initialized (app w)"
    if "loads_only w w1" for w1
    using that load_events_kinds by (auto simp: loads_only_def)
  show ?thesis
  proof (cases rule: init_cases [of w e])
    case (aborted w1)
    then have "init e w = Some (if init_checks_pass e (flags w) then Returned False w1
                   else Fatal CheckFailed w1)" by simp
    with aborted(2) frame [OF aborted(1)] show ?thesis by blast
  next
    case (rejected w1)
    let ?w' = "emit LogError w1"
    obtain evs where t: "trace w1 = trace w @ evs" and nc: "\<forall>ev\<in>set evs. \<not> constructs ev"
      using frame(1) [OF rejected(1)] by blast
    have 1: "init e w = Some (if init_checks_pass e (flags w) then Returned False ?w'
                   else Fatal CheckFailed ?w')"
      using rejected by simp
    have 2: "last (trace ?w') = LogError" by simp
    have 3: "this_message_flow (app ?w') = this_message_flow (app w)"
      "this_rovio_localization_node (app ?w') = this_rovio_localization_node (app w)"
      "this_initialized (app ?w') = this_initialized (app w)"
      using frame(2-4) [OF rejected(1)] by simp_all
    have 4: "\<exists>evs'. trace ?w' = trace w @ evs' \<and> (\<forall>ev\<in>set evs'. \<not> constructs ev)"
    proof (intro exI conjI)
      show "trace ?w' = trace w @ (evs @ [LogError])" using t by simp
      show "\<forall>ev\<in>set (evs @ [LogError]). \<not> constructs ev" using nc by simp
    qed
    from 1 2 3 4 show ?thesis by blast
  next
    case diverges
    with assms show ?thesis by simp
  next
    case (constructed w1 folder)
    with assms show ?thesis by simp
  qed
qed

theorem init_rejects_resources_without_folder_witness:
  "\<exists>w'. init example_env
          (RovioliApp no_params
             (example_flags\<lparr>FLAGS_save_map_folder := [],
                             FLAGS_map_builder_save_image_as_resources := True\<rparr>))
        = Some (Returned False w')
      \<and> last (trace w') = LogError
      \<and> \<not> this_message_flow (app w') \<and> \<not> this_rovio_localization_node (app w')
      \<and> \<not> this_initialized (app w')"
proof -
  let ?w = "RovioliApp no_params
             (example_flags\<lparr>FLAGS_save_map_folder := [],
                             FLAGS_map_builder_save_image_as_resources := True\<rparr>)"
  have a: "FLAGS_map_builder_save_image_as_resources (flags ?w)"
    and b: "FLAGS_save_map_folder (flags ?w) = []"
    and c: "init_checks_pass example_env (flags ?w)"
    and d: "\<not> this_message_flow (app ?w)" "\<not> this_rovio_localization_node (app ?w)"
      "\<not> this_initialized (app ?w)"
    by (simp_all add: model_defs example_defs init_checks_pass_def)
  from init_rejects_resources_without_folder [OF a b, of example_env] c d
  show ?thesis by auto
qed

text \<open>The trace \<^verbatim>\<open>init\<close> ends with extends the trace its first part (lines 144-163) ends
  with.\<close>

lemma init_trace_extends:
  assumes "init e w = Some out"
  shows "\<exists>evs. trace (world_of out) = trace (world_of (init_load_localization_map e w)) @ evs"
proof (cases "init_load_localization_map e w")
  case (Fatal r wa)
  with assms show ?thesis by (auto simp: init_def)
next
  case (Returned u wa)
  obtain evs where s: "trace (world_of (init_load_sensors e wa)) = trace wa @ evs"
    using load_sensors_loads_only [of wa e] by (auto simp: loads_only_def)
  show ?thesis
  proof (cases "init_load_sensors e wa")
    case (Fatal r wb)
    with assms Returned s show ?thesis by (auto simp: init_def)
  next
    case inner: (Returned u' wb)
    with assms Returned s show ?thesis
      by (auto simp: init_def init_construct_def Let_def split: if_splits option.splits)
  qed
qed

lemma RovioliApp_fresh:
  "app (RovioliApp ps f0) =
     \<lparr>this_initialized = False, this_save_map_folder = [], this_message_flow = False,
      this_localization_map = False, this_rovio_localization_node = False\<rparr>"
  "set (trace (RovioliApp ps f0)) \<subseteq> {RosInfo, AdvertiseService}"
  by (auto simp: RovioliApp_def Let_def split: prod.splits)

text \<open>
  C9: when a localization map folder is configured and does not load as a summary map,
  \<^verbatim>\<open>init\<close> logs a warning (and no error) and loads the same folder as a full VI map. If
  that load succeeds, a summary map is derived from it, and the trace of \<^verbatim>\<open>init\<close>,
  however it ends, starts with these four events. If it fails, \<^verbatim>\<open>init\<close> aborts the process
  right there, and so does \<^verbatim>\<open>main\<close>, whose trace then has no start of the spinner or of
  the node: the controller never runs.
\<close>

theorem localization_map_fallback:
  assumes "FLAGS_vio_localization_map_folder (flags w) = folder" and "folder \<noteq> []"
    and "\<not> summary_map_loadFromFolder e folder"
  shows "(vi_map_loadMapFromFolder e folder \<longrightarrow>
            (\<exists>w4. init_load_localization_map e w =
                     (if 0 < summary_map_landmark_cols e folder then Returned () w4
                      else Fatal CheckFailed w4)
                 \<and> this_localization_map (app w4)
                 \<and> trace w4 = trace w @ [SummaryMapLoadFromFolder folder, LogWarning,
                      LoadMapFromFolder folder, CreateLocalizationSummaryMap folder])
            \<and> (\<forall>out. init e w = Some out \<longrightarrow>
                 take (length (trace w) + 4) (trace (world_of out)) =
                   trace w @ [SummaryMapLoadFromFolder folder, LogWarning,
                      LoadMapFromFolder folder, CreateLocalizationSummaryMap folder]))
         \<and> (\<not> vi_map_loadMapFromFolder e folder \<longrightarrow>
            (\<exists>w2. init e w = Some (Fatal CheckFailed w2)
                 \<and> trace w2 = trace w @ [SummaryMapLoadFromFolder folder, LogWarning,
                      LoadMapFromFolder folder]
                 \<and> (\<forall>ps f0. w = RovioliApp ps f0 \<longrightarrow>
                       main e ps f0 = Some (Fatal CheckFailed w2)
                       \<and> SpinnerStart \<notin> set (trace w2)
                       \<and> RovioliNodeStart \<notin> set (trace w2))))"
proof (intro conjI impI)
  assume vi: "vi_map_loadMapFromFolder e folder"
  let ?w4 = "emit (CreateLocalizationSummaryMap folder) (set_localization_map True
      (emit (LoadMapFromFolder folder) (emit LogWarning
        (emit (SummaryMapLoadFromFolder folder) (set_localization_map True w)))))"
  have r: "init_load_localization_map e w =
      (if 0 < summary_map_landmark_cols e folder then Returned () ?w4
       else Fatal CheckFailed ?w4)"
    using assms vi by (simp add: init_load_localization_map_def Let_def CHECK_def)
  have t: "trace ?w4 = trace w @ [SummaryMapLoadFromFolder folder, LogWarning,
      LoadMapFromFolder folder, CreateLocalizationSummaryMap folder]" by simp
  have lm: "this_localization_map (app ?w4)" by simp
  from r lm t
  show "\<exists>w4. init_load_localization_map e w =
                     (if 0 < summary_map_landmark_cols e folder then Returned () w4
                      else Fatal CheckFailed w4)
                 \<and> this_localization_map (app w4)
                 \<and> trace w4 = trace w @ [SummaryMapLoadFromFolder folder, LogWarning,
                      LoadMapFromFolder folder, CreateLocalizationSummaryMap folder]"
    by blast
  have wo: "trace (world_of (init_load_localization_map e w)) = trace ?w4"
    by (subst r) simp
  show "\<forall>out. init e w = Some out \<longrightarrow>
                 take (length (trace w) + 4) (trace (world_of out)) =
                   trace w @ [SummaryMapLoadFromFolder folder, LogWarning,
                      LoadMapFromFolder folder, CreateLocalizationSummaryMap folder]"
  proof (intro allI impI)
    fix out assume "init e w = Some out"
    then obtain evs where "trace (world_of out) = trace ?w4 @ evs"
      using init_trace_extends wo by metis
    then show "take (length (trace w) + 4) (trace (world_of out)) =
                   trace w @ [SummaryMapLoadFromFolder folder, LogWarning,
                      LoadMapFromFolder folder, CreateLocalizationSummaryMap folder]"
      by (simp add: t)
  qed
next
  assume nvi: "\<not> vi_map_loadMapFromFolder e folder"
  let ?w2 = "emit (LoadMapFromFolder folder) (emit LogWarning
        (emit (SummaryMapLoadFromFolder folder) (set_localization_map True w)))"
  have r: "init_load_localization_map e w = Fatal CheckFailed ?w2"
    using assms nvi by (simp add: init_load_localization_map_def Let_def CHECK_def)
  have i: "init e w = Some (Fatal CheckFailed ?w2)"
    by (simp add: init_def r)
  have t: "trace ?w2 = trace w @ [SummaryMapLoadFromFolder folder, LogWarning,
      LoadMapFromFolder folder]" by simp
  have m: "\<forall>ps f0. w = RovioliApp ps f0 \<longrightarrow>
                       main e ps f0 = Some (Fatal CheckFailed ?w2)
                       \<and> SpinnerStart \<notin> set (trace ?w2)
                       \<and> RovioliNodeStart \<notin> set (trace ?w2)"
  proof (intro allI impI)
    fix ps f0 assume w: "w = RovioliApp ps f0"
    have "main e ps f0 = Some (Fatal CheckFailed ?w2)"
      using i w by (simp add: main_def main_startup_def)
    moreover have "SpinnerStart \<notin> set (trace ?w2)" "RovioliNodeStart \<notin> set (trace ?w2)"
      using RovioliApp_fresh(2) [of ps f0] w by (auto simp: t)
    ultimately show "main e ps f0 = Some (Fatal CheckFailed ?w2)
                       \<and> SpinnerStart \<notin> set (trace ?w2)
                       \<and> RovioliNodeStart \<notin> set (trace ?w2)" by simp
  qed
  from i t m
  show "\<exists>w2. init e w = Some (Fatal CheckFailed w2)
                 \<and> trace w2 = trace w @ [SummaryMapLoadFromFolder folder, LogWarning,
                      LoadMapFromFolder folder]
                 \<and> (\<forall>ps f0. w = RovioliApp ps f0 \<longrightarrow>
                       main e ps f0 = Some (Fatal CheckFailed w2)
                       \<and> SpinnerStart \<notin> set (trace w2)
                       \<and> RovioliNodeStart \<notin> set (trace w2))"
    by blast
qed

theorem localization_map_fallback_witness:
  "(\<exists>w2. main example_env no_params
            (example_flags\<lparr>FLAGS_vio_localization_map_folder := ''/maps/loc''\<rparr>)
          = Some (Fatal CheckFailed w2)
        \<and> trace w2 = [AdvertiseService, SummaryMapLoadFromFolder ''/maps/loc'', LogWarning,
             LoadMapFromFolder ''/maps/loc''])
   \<and> (\<exists>w4. init_load_localization_map
            (example_env\<lparr>vi_map_loadMapFromFolder := (\<lambda>p. True),
                         summary_map_landmark_cols := (\<lambda>p. 7)\<rparr>)
            (RovioliApp no_params
               (example_flags\<lparr>FLAGS_vio_localization_map_folder := ''/maps/loc''\<rparr>))
          = Returned () w4
        \<and> trace w4 = [AdvertiseService, SummaryMapLoadFromFolder ''/maps/loc'', LogWarning,
             LoadMapFromFolder ''/maps/loc'', CreateLocalizationSummaryMap ''/maps/loc''])"
proof -
  let ?f = "example_flags\<lparr>FLAGS_vio_localization_map_folder := ''/maps/loc''\<rparr>"
  let ?w = "RovioliApp no_params ?f"
  let ?e = "example_env\<lparr>vi_map_loadMapFromFolder := (\<lambda>p. True),
                         summary_map_landmark_cols := (\<lambda>p. 7)\<rparr>"
  have a: "FLAGS_vio_localization_map_folder (flags ?w) = ''/maps/loc''"
    and t: "trace ?w = [AdvertiseService]"
    by (simp_all add: model_defs example_defs)
  have b: "''/maps/loc'' \<noteq> []" by simp
  have c: "\<not> summary_map_loadFromFolder example_env ''/maps/loc''"
    and d: "\<not> vi_map_loadMapFromFolder example_env ''/maps/loc''"
    and c': "\<not> summary_map_loadFromFolder ?e ''/maps/loc''"
    and d': "vi_map_loadMapFromFolder ?e ''/maps/loc''"
    and g: "0 < summary_map_landmark_cols ?e ''/maps/loc''"
    by (simp_all add: example_defs)
  from localization_map_fallback [OF a b c] d t
  have 1: "\<exists>w2. main example_env no_params ?f = Some (Fatal CheckFailed w2)
        \<and> trace w2 = [AdvertiseService, SummaryMapLoadFromFolder ''/maps/loc'', LogWarning,
             LoadMapFromFolder ''/maps/loc'']"
    by auto
  from localization_map_fallback [OF a b c'] d' g t
  have 2: "\<exists>w4. init_load_localization_map ?e ?w = Returned () w4
        \<and> trace w4 = [AdvertiseService, SummaryMapLoadFromFolder ''/maps/loc'', LogWarning,
             LoadMapFromFolder ''/maps/loc'', CreateLocalizationSummaryMap ''/maps/loc'']"
    by auto
  from 1 2 show ?thesis by blast
qed

subsection \<open>Exit of the host process\<close>

text \<open>The wait loop ends at a look that finds ROS not ok or the data source exhausted.\<close>

lemma wait_loop_exit:
  "wait_loop e k = Some n \<Longrightarrow> \<not> ros_ok e n \<or> data_source_exhausted e n"
proof (induction rule: wait_loop.raw_induct[rotated 1, consumes 1])
  case (1 f e k n)
  show ?case
  proof (cases "ros_ok e k \<and> \<not> data_source_exhausted e k")
    case True
    with 1(2) have "f e (Suc k) = Some n" by simp
    from 1(1)[OF this] show ?thesis .
  next
    case False
    with 1(2) show ?thesis by auto
  qed
qed

text \<open>When the startup part of main returns, init has returned true: the controller is
  constructed, and nothing has been saved or shut down.\<close>

lemma main_startup_Returned:
  assumes "main_startup e ps f0 = Some (Returned u w)"
  shows "this_rovio_localization_node (app w) \<and> this_message_flow (app w)
         \<and> this_initialized (app w) \<and> flags w = flags (RovioliApp ps f0)
         \<and> (\<forall>ev\<in>set (trace w). \<not> is_save ev \<and> ev \<noteq> RovioliNodeShutdown
               \<and> ev \<noteq> MessageFlowShutdown \<and> ev \<noteq> MessageFlowWaitUntilIdle)"
proof (cases rule: init_cases [of "RovioliApp ps f0" e])
  case (aborted w1)
  with assms show ?thesis by (simp add: main_startup_def)
next
  case (rejected w1)
  then have "\<not> this_initialized (app w1)" "\<not> this_rovio_localization_node (app w1)"
    using RovioliApp_fresh(1) [of ps f0] by (simp_all add: loads_only_def)
  with assms rejected(5) show ?thesis
    by (simp add: main_startup_def run_def shouldExit_def CHECK_def ros_fatal_shutdown_def)
next
  case diverges
  with assms show ?thesis by (simp add: main_startup_def)
next
  case (constructed w1 folder)
  then obtain evs where t: "trace w1 = trace (RovioliApp ps f0) @ evs"
    and le: "list_all is_load_event evs" and f1: "flags w1 = flags (RovioliApp ps f0)"
    by (auto simp: loads_only_def)
  have quiet: "\<forall>ev\<in>set (trace w1). \<not> is_save ev \<and> ev \<noteq> RovioliNodeShutdown
               \<and> ev \<noteq> MessageFlowShutdown \<and> ev \<noteq> MessageFlowWaitUntilIdle"
  proof
    fix ev assume "ev \<in> set (trace w1)"
    then have "ev \<in> {RosInfo, AdvertiseService} \<or> is_load_event ev"
      using t le RovioliApp_fresh(2) [of ps f0] by (auto simp: list_all_iff)
    then show "\<not> is_save ev \<and> ev \<noteq> RovioliNodeShutdown
               \<and> ev \<noteq> MessageFlowShutdown \<and> ev \<noteq> MessageFlowWaitUntilIdle"
      by (cases ev) auto
  qed
  from assms constructed(5)
  have "w = emit RovioliNodeStart (emit SpinnerStart
       (init_construct e (w1\<lparr>app := (app w1)\<lparr>this_save_map_folder := folder\<rparr>\<rparr>)))"
    by (simp add: main_startup_def run_def shouldExit_def CHECK_def init_construct_def Let_def)
  then show ?thesis using quiet f1 by (simp add: init_construct_def Let_def)
qed

text \<open>
  C7: when the startup part of \<^verbatim>\<open>main\<close> has returned and the wait loop ends (which it does
  at a look that finds ROS not ok or the data source exhausted), \<^verbatim>\<open>main\<close> runs
  \<^verbatim>\<open>shutdown\<close>, which returns, and then calls \<^verbatim>\<open>saveMap\<close> exactly when the flag
  \<^verbatim>\<open>save_map_on_shutdown\<close> is set, and returns 0. Up to there \<^verbatim>\<open>main\<close> has saved and shut
  down nothing, so in the final trace the three events of \<^verbatim>\<open>shutdown\<close> come before the
  save event, if there is one; there is one exactly when the flag is set and the save
  folder is not empty.
\<close>

theorem main_shuts_down_before_final_save:
  assumes "main_startup e ps f0 = Some (Returned () w)" and "wait_loop e 0 = Some k"
  shows "(\<not> ros_ok e k \<or> data_source_exhausted e k)
         \<and> (\<forall>ev\<in>set (trace w). \<not> is_save ev \<and> ev \<noteq> RovioliNodeShutdown
               \<and> ev \<noteq> MessageFlowShutdown \<and> ev \<noteq> MessageFlowWaitUntilIdle)
         \<and> (\<exists>ws. shutdown w = Returned () ws
               \<and> main e ps f0 =
                   Some (if FLAGS_save_map_on_shutdown (flags w)
                         then bind (saveMap e ws) (\<lambda>_. Returned 0) else Returned 0 ws))
         \<and> (\<exists>w'. main e ps f0 = Some (Returned 0 w')
               \<and> trace w' = trace w
                   @ [RovioliNodeShutdown, MessageFlowShutdown, MessageFlowWaitUntilIdle]
                   @ (if FLAGS_save_map_on_shutdown (flags w)
                         \<and> this_save_map_folder (app w) \<noteq> []
                      then [save_event e w] else []))"
proof -
  have s: "this_rovio_localization_node (app w)" "this_message_flow (app w)"
    and q: "\<forall>ev\<in>set (trace w). \<not> is_save ev \<and> ev \<noteq> RovioliNodeShutdown
               \<and> ev \<noteq> MessageFlowShutdown \<and> ev \<noteq> MessageFlowWaitUntilIdle"
    using main_startup_Returned [OF assms(1)] by simp_all
  let ?ws = "emit MessageFlowWaitUntilIdle (emit MessageFlowShutdown
      (emit RovioliNodeShutdown w))"
  have sd: "shutdown w = Returned () ?ws" using s by (simp add: shutdown_def Let_def)
  have m: "main e ps f0 =
      Some (if FLAGS_save_map_on_shutdown (flags w)
            then bind (saveMap e ?ws) (\<lambda>_. Returned 0) else Returned 0 ?ws)"
    using assms sd by (simp add: main_def main_exit_def)
  have sm: "saveMap e ?ws =
      (if this_save_map_folder (app w) \<noteq> [] then Returned True (emit (save_event e w) ?ws)
       else Returned False ?ws)"
    using s by (simp add: saveMap_def save_event_def Let_def)
  have fin: "\<exists>w'. main e ps f0 = Some (Returned 0 w')
               \<and> trace w' = trace w
                   @ [RovioliNodeShutdown, MessageFlowShutdown, MessageFlowWaitUntilIdle]
                   @ (if FLAGS_save_map_on_shutdown (flags w)
                         \<and> this_save_map_folder (app w) \<noteq> []
                      then [save_event e w] else [])"
    unfolding m sm by simp
  from wait_loop_exit [OF assms(2)] q sd m fin show ?thesis by blast
qed

theorem main_shuts_down_before_final_save_witness:
  "\<exists>w w'. main_startup example_env no_params example_flags = Some (Returned () w)
      \<and> wait_loop example_env 0 = Some 2
      \<and> FLAGS_save_map_on_shutdown (flags w)
      \<and> main example_env no_params example_flags = Some (Returned 0 w')
      \<and> trace w' = trace w @ [RovioliNodeShutdown, MessageFlowShutdown,
           MessageFlowWaitUntilIdle, RovioliNodeSaveMap ''/maps/out_0'' False False True]"
proof -
  let ?w = "emit RovioliNodeStart (emit SpinnerStart example_world)"
  have a: "main_startup example_env no_params example_flags = Some (Returned () ?w)"
    using example_world_reached [of "\<lambda>p overwrite optimize. True"]
    by (simp add: main_startup_def run_def shouldExit_def CHECK_def Let_def example_defs)
  have b: "wait_loop example_env 0 = Some 2"
    by (simp add: example_defs wait_loop.simps)
  have c: "FLAGS_save_map_on_shutdown (flags ?w)" "this_save_map_folder (app ?w) \<noteq> []"
    "save_event example_env ?w = RovioliNodeSaveMap ''/maps/out_0'' False False True"
    by (simp_all add: example_defs save_event_def)
  from main_shuts_down_before_final_save [OF a b] c a b
  show ?thesis by auto
qed

subsection \<open>The configuration after initialization\<close>

text \<open>
  C10: \<^verbatim>\<open>init\<close> does not write the flags; the save path it leaves in
  \<^verbatim>\<open>save_map_folder_\<close> is the one allocated from the flags, and the node has been
  constructed with that same path. After \<^verbatim>\<open>init\<close> has returned true, whatever calls of
  \<^verbatim>\<open>run\<close>, \<^verbatim>\<open>shouldExit\<close>, \<^verbatim>\<open>saveMap\<close>, \<^verbatim>\<open>saveMapCallback\<close> and \<^verbatim>\<open>shutdown\<close> follow, the
  flags and the save path stay as \<^verbatim>\<open>init\<close> left them, and every save call made on the way
  passes that save path and the overwrite and optimize flags of initialization to the
  node.
\<close>

theorem configuration_fixed_after_init:
  assumes "init e w0 = Some (Returned True w)"
  shows "flags w = flags w0
         \<and> allocate_save_folder e (FLAGS_overwrite_existing_map (flags w0))
             (FLAGS_save_map_folder (flags w0)) = Some (this_save_map_folder (app w))
         \<and> last (trace w) =
             RovioliNodeConstruct (this_save_map_folder (app w)) (this_localization_map (app w))
         \<and> (\<forall>cs. flags (world_of (do_calls e cs w)) = flags w0
               \<and> this_save_map_folder (app (world_of (do_calls e cs w)))
                   = this_save_map_folder (app w)
               \<and> (\<forall>ev\<in>set (drop (length (trace w)) (trace (world_of (do_calls e cs w)))).
                     is_save ev \<longrightarrow>
                       ev = RovioliNodeSaveMap (this_save_map_folder (app w))
                              (FLAGS_overwrite_existing_map (flags w0))
                              (FLAGS_optimize_map_to_localization_map (flags w0))
                              (persist_succeeds e (this_save_map_folder (app w))
                                 (FLAGS_overwrite_existing_map (flags w0))
                                 (FLAGS_optimize_map_to_localization_map (flags w0)))))"
proof -
  obtain w1 folder where f1: "flags w1 = flags w0"
    and a: "allocate_save_folder e (FLAGS_overwrite_existing_map (flags w0))
                  (FLAGS_save_map_folder (flags w0)) = Some folder"
    and w: "w = init_construct e (w1\<lparr>app := (app w1)\<lparr>this_save_map_folder := folder\<rparr>\<rparr>)"
    using assms by (cases rule: init_cases [of w0 e]) (auto simp: loads_only_def)
  have fw: "flags w = flags w0" and mw: "this_save_map_folder (app w) = folder"
    and lw: "last (trace w) =
       RovioliNodeConstruct (this_save_map_folder (app w)) (this_localization_map (app w))"
    using w f1 by (simp_all add: init_construct_def Let_def)
  have calls: "\<forall>cs. flags (world_of (do_calls e cs w)) = flags w0
               \<and> this_save_map_folder (app (world_of (do_calls e cs w)))
                   = this_save_map_folder (app w)
               \<and> (\<forall>ev\<in>set (drop (length (trace w)) (trace (world_of (do_calls e cs w)))).
                     is_save ev \<longrightarrow>
                       ev = RovioliNodeSaveMap (this_save_map_folder (app w))
                              (FLAGS_overwrite_existing_map (flags w0))
                              (FLAGS_optimize_map_to_localization_map (flags w0))
                              (persist_succeeds e (this_save_map_folder (app w))
                                 (FLAGS_overwrite_existing_map (flags w0))
                                 (FLAGS_optimize_map_to_localization_map (flags w0))))"
  proof
    fix cs
    let ?w' = "world_of (do_calls e cs w)"
    have c: "calls_only e w ?w'" by (rule do_calls_calls_only)
    then obtain evs where t: "trace ?w' = trace w @ evs"
      and sv: "\<forall>ev\<in>set evs. is_save ev \<longrightarrow> ev = save_event e w"
      by (auto simp: calls_only_def)
    have d: "drop (length (trace w)) (trace ?w') = evs" by (simp add: t)
    show "flags ?w' = flags w0
               \<and> this_save_map_folder (app ?w') = this_save_map_folder (app w)
               \<and> (\<forall>ev\<in>set (drop (length (trace w)) (trace ?w')).
                     is_save ev \<longrightarrow>
                       ev = RovioliNodeSaveMap (this_save_map_folder (app w))
                              (FLAGS_overwrite_existing_map (flags w0))
                              (FLAGS_optimize_map_to_localization_map (flags w0))
                              (persist_succeeds e (this_save_map_folder (app w))
                                 (FLAGS_overwrite_existing_map (flags w0))
                                 (FLAGS_optimize_map_to_localization_map (flags w0))))"
      unfolding d using c sv fw by (simp add: calls_only_def save_event_def)
  qed
  from fw a mw lw calls show ?thesis by simp
qed

theorem configuration_fixed_after_init_witness:
  "init example_env (RovioliApp no_params example_flags) = Some (Returned True example_world)
   \<and> flags (world_of (do_calls example_env
        [CallRun, CallSaveMapCallback, CallShutdown, CallSaveMap] example_world))
       = flags (RovioliApp no_params example_flags)
   \<and> filter is_save (trace (world_of (do_calls example_env
        [CallRun, CallSaveMapCallback, CallShutdown, CallSaveMap] example_world)))
       = [RovioliNodeSaveMap ''/maps/out_0'' False False True,
          RovioliNodeSaveMap ''/maps/out_0'' False False True]"
proof -
  have r: "init example_env (RovioliApp no_params example_flags)
      = Some (Returned True example_world)"
    using example_world_reached [of "\<lambda>p overwrite optimize. True"]
    by (simp add: example_defs)
  have s: "filter is_save (trace (world_of (do_calls example_env
        [CallRun, CallSaveMapCallback, CallShutdown, CallSaveMap] example_world)))
       = [RovioliNodeSaveMap ''/maps/out_0'' False False True,
          RovioliNodeSaveMap ''/maps/out_0'' False False True]"
    by (simp add: run_def saveMap_def saveMapCallback_def shutdown_def emit_def Let_def
        example_defs)
  from configuration_fixed_after_init [OF r] r s show ?thesis by blast
qed

section \<open>Further properties\<close>

text \<open>
  When \<^verbatim>\<open>init\<close>, called on the freshly constructed controller, returns false,
  \<^verbatim>\<open>main\<close> does not stop there: it logs, \<^verbatim>\<open>run\<close> returns false, it logs again, and the
  \<^verbatim>\<open>CHECK\<close> in \<^verbatim>\<open>shouldExit\<close> aborts the process, since no node was constructed.
\<close>

theorem main_aborts_after_init_returns_false:
  assumes "init e (RovioliApp ps f0) = Some (Returned False w)"
  shows "main e ps f0 = Some (Fatal CheckFailed (ros_fatal_shutdown (ros_fatal_shutdown w)))
         \<and> trace (ros_fatal_shutdown (ros_fatal_shutdown w)) =
             trace w @ [RosFatal, RosShutdown, RosFatal, RosShutdown]"
proof -
  obtain w1 where "loads_only (RovioliApp ps f0) w1" and "w = emit LogError w1"
    using assms by (cases rule: init_cases [of "RovioliApp ps f0" e]) auto
  then have "\<not> this_initialized (app w)" "\<not> this_rovio_localization_node (app w)"
    using RovioliApp_fresh(1) [of ps f0] by (simp_all add: loads_only_def)
  then show ?thesis using assms
    by (simp add: main_def main_startup_def run_def shouldExit_def CHECK_def
        ros_fatal_shutdown_def)
qed

theorem main_aborts_after_init_returns_false_witness:
  "\<exists>w w'. init example_env
            (RovioliApp no_params
               (example_flags\<lparr>FLAGS_save_map_folder := [],
                               FLAGS_map_builder_save_image_as_resources := True\<rparr>))
          = Some (Returned False w)
      \<and> main example_env no_params
            (example_flags\<lparr>FLAGS_save_map_folder := [],
                            FLAGS_map_builder_save_image_as_resources := True\<rparr>)
          = Some (Fatal CheckFailed w')
      \<and> trace w' = [AdvertiseService, NCameraLoadFromYaml ''ncamera.yaml'',
           ImuCreateFromYaml ''imu-maplab.yaml'', LogError, RosFatal, RosShutdown, RosFatal,
           RosShutdown]"
proof -
  let ?f = "example_flags\<lparr>FLAGS_save_map_folder := [],
                            FLAGS_map_builder_save_image_as_resources := True\<rparr>"
  let ?w = "emit LogError (emit (ImuCreateFromYaml ''imu-maplab.yaml'')
      (emit (NCameraLoadFromYaml ''ncamera.yaml'') (RovioliApp no_params ?f)))"
  have h: "init example_env (RovioliApp no_params ?f) = Some (Returned False ?w)"
    by (simp add: model_defs example_defs)
  have t: "trace ?w = [AdvertiseService, NCameraLoadFromYaml ''ncamera.yaml'',
           ImuCreateFromYaml ''imu-maplab.yaml'', LogError]"
    by (simp add: model_defs example_defs)
  from main_aborts_after_init_returns_false [OF h] h t show ?thesis by simp
qed

text \<open>
  The loop of lines 202-207 has no bound. When the requested folder and all its
  suffixed candidates are taken, the allocation never ends, and neither does \<^verbatim>\<open>init\<close>
  once its checks have passed.
\<close>

theorem allocation_never_ends_when_all_taken:
  assumes "p \<noteq> []" and "taken e ow p" and "\<forall>n<2^64. taken e ow (suffixed p n)"
  shows "allocate_save_folder e ow p = None
         \<and> (\<forall>w::world. FLAGS_save_map_folder (flags w) = p
                \<and> FLAGS_overwrite_existing_map (flags w) = ow
                \<and> init_checks_pass e (flags w) \<longrightarrow> init e w = None)"
proof -
  have "allocate_loop e ow p p 0 = None"
  proof (cases "allocate_loop e ow p p 0")
    case (Some r)
    from allocate_loop_result [OF this] assms show ?thesis by auto
  qed simp
  then have a: "allocate_save_folder e ow p = None"
    using assms(1) by (simp add: allocate_save_folder_def)
  have "\<forall>w::world. FLAGS_save_map_folder (flags w) = p
                \<and> FLAGS_overwrite_existing_map (flags w) = ow
                \<and> init_checks_pass e (flags w) \<longrightarrow> init e w = None"
  proof (intro allI impI)
    fix w :: world
    assume h: "FLAGS_save_map_folder (flags w) = p
                \<and> FLAGS_overwrite_existing_map (flags w) = ow
                \<and> init_checks_pass e (flags w)"
    show "init e w = None"
      using h a assms(1) by (cases rule: init_cases [of w e]) simp_all
  qed
  with a show ?thesis by simp
qed

theorem allocation_never_ends_when_all_taken_witness:
  "allocate_save_folder (example_env\<lparr>fileExists := (\<lambda>p. True)\<rparr>) False ''/maps/out'' = None
   \<and> init (example_env\<lparr>fileExists := (\<lambda>p. True)\<rparr>) (RovioliApp no_params example_flags) = None"
proof -
  let ?e = "example_env\<lparr>fileExists := (\<lambda>p. True)\<rparr>"
  have a: "''/maps/out'' \<noteq> []" "taken ?e False ''/maps/out''"
    "\<forall>n<2^64. taken ?e False (suffixed ''/maps/out'' n)"
    by (simp_all add: taken_def)
  have b: "FLAGS_save_map_folder (flags (RovioliApp no_params example_flags)) = ''/maps/out''"
    "FLAGS_overwrite_existing_map (flags (RovioliApp no_params example_flags)) = False"
    "init_checks_pass ?e (flags (RovioliApp no_params example_flags))"
    by (simp_all add: model_defs example_defs init_checks_pass_def)
  from allocation_never_ends_when_all_taken [OF a] b show ?thesis by blast
qed

end
